theory Spec2Isabelle
  imports Main
begin

section \<open>The canvas replayer plugin (canvas-plugin.ts)\<close>

subsection \<open>Recorded events\<close>

text \<open>
  The plugin keys its \<open>Set\<close> and its \<open>Map\<close>s by event objects, that is by object identity.
  An event object is therefore a reference (\<open>ref\<close>) into a store of event contents, and the
  recorded stream is a list of references: two entries of the stream may be the same object,
  and two different objects may have the same contents.
\<close>

type_synonym ref = nat
type_synonym payload = nat
type_synonym handle = nat

datatype EventType =
  DomContentLoaded | Load | FullSnapshot | IncrementalSnapshot | Meta | Custom | Plugin

datatype IncrementalSource =
  Mutation | MouseMove | MouseInteraction | Scroll | ViewportResize | Input | TouchMove
  | MediaInteraction | StyleSheetRule | CanvasMutation | Font | Log | Drag | StyleDeclaration
  | Selection | AdoptedStyleSheet

text \<open>
  A draw-call argument (\<open>CanvasArg\<close>): a primitive, a plain structured value, a serialized
  reference (kind and payload) that has to be decoded before use, or a decoded handle.
\<close>

datatype CanvasArg =
  Primitive string
  | Plain "string list"
  | SerializedReference string payload
  | Decoded handle

record command =
  property :: string
  args :: "CanvasArg list"

text \<open>\<open>canvasMutationData\<close>: either \<open>{commands: [...]}\<close> or a single draw call.\<close>

datatype mutation_body = Batch "command list" | Call command

record canvasMutationData =
  data_id :: int
  body :: mutation_body

text \<open>
  \<open>eventWithTime\<close>, flattened: \<open>source\<close> is \<open>e.data.source\<close> (absent on events that are not
  incremental snapshots) and \<open>mutation\<close> is \<open>e.data\<close> read as \<open>canvasMutationData\<close>, which the
  plugin does only after \<open>isCanvasMutation\<close>.
\<close>

record eventWithTime =
  etype :: EventType
  source :: "IncrementalSource option"
  timestamp :: nat
  mutation :: canvasMutationData

definition isCanvasMutation :: "eventWithTime \<Rightarrow> bool" where
  "isCanvasMutation e \<longleftrightarrow> etype e = IncrementalSnapshot \<and> source e = Some CanvasMutation"

text \<open>\<open>Array.prototype.findIndex\<close>: the first index whose element satisfies \<open>P\<close>, else \<open>-1\<close>.\<close>

fun findIndex :: "('a \<Rightarrow> bool) \<Rightarrow> 'a list \<Rightarrow> int" where
  "findIndex P [] = - 1"
| "findIndex P (x # xs) =
     (if P x then 0 else (let i = findIndex P xs in if i < 0 then - 1 else i + 1))"

definition findEvent :: "(ref \<Rightarrow> eventWithTime) \<Rightarrow> ref list \<Rightarrow> ref \<Rightarrow> int" where
  "findEvent h evs target =
     findIndex (\<lambda>event. data_id (mutation (h event)) = data_id (mutation (h target))) evs"

text \<open>
  \<open>Array.prototype.slice(start, end)\<close>: a negative index counts from the end, both indices
  are clamped to the array, and an end at or before the start gives the empty array.
\<close>

definition slice :: "'a list \<Rightarrow> int \<Rightarrow> int \<Rightarrow> 'a list" where
  "slice xs start fin =
     (let n = int (length xs);
          k = (if start < 0 then max (n + start) 0 else min start n);
          final = (if fin < 0 then max (n + fin) 0 else min fin n)
      in take (nat (final - k)) (drop (nat k) xs))"

definition PRELOAD_BUFFER_SIZE :: int where
  "PRELOAD_BUFFER_SIZE = 30"

subsection \<open>The recording and the plugin's state\<close>

text \<open>
  What the plugin is constructed over: the store of event contents, the recorded stream
  \<open>events\<close>, the outcome of decoding each payload (\<open>None\<close>: the decode fails) and what
  replaying a draw call on a target throws, if anything.
\<close>

datatype thrown = ErrorObject string | OtherValue string

record recording =
  heap :: "ref \<Rightarrow> eventWithTime"
  events :: "ref list"
  decode :: "payload \<Rightarrow> handle option"
  drawThrows :: "command \<Rightarrow> thrown option"

definition canvasMutationEvents :: "recording \<Rightarrow> ref list" where
  "canvasMutationEvents w = filter (\<lambda>e. isCanvasMutation (heap w e)) (events w)"

text \<open>The source node of the mirror, the off-screen target and the placeholder image.\<close>

record SourceNode =
  attr_width :: nat
  attr_height :: nat
  clientWidth :: nat
  clientHeight :: nat

record HTMLCanvasElement =
  width :: nat
  height :: nat
  drawn :: "command list"

record HTMLImageElement =
  src :: "HTMLCanvasElement option"

datatype error = DecodeFailure payload | TypeError

text \<open>
  An asynchronous call that is suspended. A \<open>preload\<close> call awaits the resolution of one
  event at a time: \<open>Decoding ev rest\<close> while the decodes of \<open>ev\<close> are in flight,
  \<open>Settled ev rest\<close> once the resolution has completed and \<open>preload\<close> has not yet resumed
  (\<open>rest\<close> is what is left of \<open>eventsToPreload\<close>), \<open>Failed ev\<close> when the awaited resolution was
  rejected, which ends the call by an exception. A \<open>processMutation\<close> call awaits
  \<open>canvasMutation\<close>: \<open>Applying ev cid cs\<close> with the draw calls \<open>cs\<close> still to be replayed on
  the target of canvas \<open>cid\<close>; \<open>Thrown e\<close> is a \<open>processMutation\<close> call ended by an exception.
\<close>

datatype task =
  Decoding ref "ref list"
  | Settled ref "ref list"
  | Failed ref
  | Applying ref int "command list"
  | Thrown error
  | Finished

text \<open>
  The closure variables of \<open>CanvasReplayerPlugin\<close>, then the calls in flight (\<open>tasks\<close>), the
  payloads whose decode has been requested (\<open>decoded\<close>, one entry per request), the events
  whose resolution \<open>preload\<close> has started (\<open>resolutions\<close>, one entry per call), the errors
  handed to \<open>captureException\<close> (\<open>captured\<close>) and the values printed by \<open>console.error\<close>.
\<close>

record state =
  canvases :: "int \<rightharpoonup> HTMLCanvasElement"
  containers :: "int \<rightharpoonup> HTMLImageElement"
  imageMap :: "payload \<rightharpoonup> handle"
  canvasEventMap :: "ref \<rightharpoonup> canvasMutationData"
  preloadBuffer :: "ref list"
  nextPreloadIndex :: "int option"
  tasks :: "task list"
  decoded :: "payload list"
  resolutions :: "ref list"
  captured :: "thrown list"
  console_error :: "thrown list"

definition init :: state where
  "init = \<lparr> canvases = Map.empty, containers = Map.empty, imageMap = Map.empty,
            canvasEventMap = Map.empty, preloadBuffer = [], nextPreloadIndex = None,
            tasks = [], decoded = [], resolutions = [], captured = [], console_error = [] \<rparr>"

text \<open>A \<open>Set\<close> as the list of its elements in insertion order.\<close>

definition Set_add :: "'a \<Rightarrow> 'a list \<Rightarrow> 'a list" where
  "Set_add x xs = (if x \<in> set xs then xs else xs @ [x])"

definition Set_delete :: "'a \<Rightarrow> 'a list \<Rightarrow> 'a list" where
  "Set_delete x xs = removeAll x xs"

subsection \<open>Resolving the arguments of a mutation\<close>

record status =
  isUnchanged :: bool

text \<open>
  Modelled from the spec: \<open>deserializeCanvasArg\<close>, of deserialize-canvas-args.ts, which is
  not among the sources. A primitive or plain structured argument needs no decoding and is
  returned as it is, the status and the cache untouched. A serialized reference changes the
  content (\<open>isUnchanged\<close> becomes false): its payload is looked up in the handle cache
  \<open>imageMap\<close>, by which decoded handles are shared between events; a payload that is not in
  the cache is decoded, and the decode either fails (a rejected promise) or gives a handle,
  which enters the cache. A handle is in the cache only once its decode has completed: two
  decodes of one payload that are in flight together are two decodes.
\<close>

definition deserializeCanvasArg ::
  "(payload \<Rightarrow> handle option) \<Rightarrow> (payload \<rightharpoonup> handle) \<Rightarrow> status \<Rightarrow> CanvasArg \<Rightarrow>
   (payload \<rightharpoonup> handle) \<times> status \<times> (error + CanvasArg)" where
  "deserializeCanvasArg dec imap st arg =
     (case arg of
        SerializedReference kind p \<Rightarrow>
          (case imap p of
             Some h \<Rightarrow> (imap, st\<lparr>isUnchanged := False\<rparr>, Inr (Decoded h))
           | None \<Rightarrow>
               (case dec p of
                  None \<Rightarrow> (imap, st, Inl (DecodeFailure p))
                | Some h \<Rightarrow> (imap(p \<mapsto> h), st\<lparr>isUnchanged := False\<rparr>, Inr (Decoded h))))
      | _ \<Rightarrow> (imap, st, Inr arg))"

text \<open>\<open>Promise.all\<close>: all the values, or the rejection of the first promise that fails.\<close>

fun Promise_all :: "(error + 'a) list \<Rightarrow> error + 'a list" where
  "Promise_all [] = Inr []"
| "Promise_all (Inl e # rs) = Inl e"
| "Promise_all (Inr x # rs) =
     (case Promise_all rs of Inl e \<Rightarrow> Inl e | Inr xs \<Rightarrow> Inr (x # xs))"

text \<open>
  \<open>args.map(deserializeCanvasArg(imageMap, null, status))\<close>, the one cache and the one
  status shared.
\<close>

fun deserialize_args ::
  "(payload \<Rightarrow> handle option) \<Rightarrow> (payload \<rightharpoonup> handle) \<Rightarrow> status \<Rightarrow> CanvasArg list \<Rightarrow>
   (payload \<rightharpoonup> handle) \<times> status \<times> (error + CanvasArg) list" where
  "deserialize_args dec imap st [] = (imap, st, [])"
| "deserialize_args dec imap st (a # as) =
     (let (m1, s1, r) = deserializeCanvasArg dec imap st a;
          (m2, s2, rs) = deserialize_args dec m1 s1 as
      in (m2, s2, r # rs))"

text \<open>\<open>data.commands.map(async (c) => ({ ...c, args: await Promise.all(...) }))\<close>.\<close>

fun deserialize_commands ::
  "(payload \<Rightarrow> handle option) \<Rightarrow> (payload \<rightharpoonup> handle) \<Rightarrow> status \<Rightarrow> command list \<Rightarrow>
   (payload \<rightharpoonup> handle) \<times> status \<times> (error + command) list" where
  "deserialize_commands dec imap st [] = (imap, st, [])"
| "deserialize_commands dec imap st (c # cs) =
     (let (m1, s1, rs) = deserialize_args dec imap st (args c);
          r = (case Promise_all rs of Inl e \<Rightarrow> Inl e | Inr as \<Rightarrow> Inr (c\<lparr>args := as\<rparr>));
          (m2, s2, rest) = deserialize_commands dec m1 s1 cs
      in (m2, s2, r # rest))"

text \<open>The payloads of the serialized references of a mutation, in the order of the walk.\<close>

fun arg_references :: "CanvasArg list \<Rightarrow> payload list" where
  "arg_references [] = []"
| "arg_references (SerializedReference kind p # as) = p # arg_references as"
| "arg_references (a # as) = arg_references as"

definition references :: "canvasMutationData \<Rightarrow> payload list" where
  "references data =
     (case body data of
        Batch cs \<Rightarrow> concat (map (\<lambda>c. arg_references (args c)) cs)
      | Call c \<Rightarrow> arg_references (args c))"

text \<open>The payloads among \<open>ps\<close> that are not in the cache: those a decode is requested for.\<close>

definition uncached :: "(payload \<rightharpoonup> handle) \<Rightarrow> payload list \<Rightarrow> payload list" where
  "uncached imap ps = filter (\<lambda>p. imap p = None) ps"

text \<open>
  \<open>deserializeAndPreloadCanvasEvents\<close> in its two halves. The first runs when the function
  is called: the check of \<open>canvasEventMap\<close> and the calls of the helper on every argument,
  up to \<open>await Promise.all\<close>; it returns whether the call is now waiting for decodes. The
  second runs when the decodes have settled: the handles decoded are in the cache, and the
  call ends by an exception when a decode was rejected, else the entry is stored when the
  status says that content has changed.
\<close>

definition deserializeAndPreloadCanvasEvents_start ::
  "state \<Rightarrow> canvasMutationData \<Rightarrow> ref \<Rightarrow> state \<times> bool" where
  "deserializeAndPreloadCanvasEvents_start st data event =
     (if canvasEventMap st event = None
      then (st\<lparr>decoded := decoded st @ uncached (imageMap st) (references data)\<rparr>, True)
      else (st, False))"

definition deserializeAndPreloadCanvasEvents_finish ::
  "recording \<Rightarrow> state \<Rightarrow> canvasMutationData \<Rightarrow> ref \<Rightarrow> state \<times> error option" where
  "deserializeAndPreloadCanvasEvents_finish w st data event =
     (case body data of
        Batch cs \<Rightarrow>
          (let (imap, status, rs) =
                 deserialize_commands (decode w) (imageMap st) \<lparr>isUnchanged = True\<rparr> cs;
               st1 = st\<lparr>imageMap := imap\<rparr>
           in case Promise_all rs of
                Inl e \<Rightarrow> (st1, Some e)
              | Inr commands \<Rightarrow>
                  if isUnchanged status = False
                  then (st1\<lparr>canvasEventMap :=
                         (canvasEventMap st1)(event \<mapsto> data\<lparr>body := Batch commands\<rparr>)\<rparr>, None)
                  else (st1, None))
      | Call c \<Rightarrow>
          (let (imap, status, rs) =
                 deserialize_args (decode w) (imageMap st) \<lparr>isUnchanged = True\<rparr> (args c);
               st1 = st\<lparr>imageMap := imap\<rparr>
           in case Promise_all rs of
                Inl e \<Rightarrow> (st1, Some e)
              | Inr as \<Rightarrow>
                  if isUnchanged status = False
                  then (st1\<lparr>canvasEventMap :=
                         (canvasEventMap st1)(event \<mapsto> data\<lparr>body := Call (c\<lparr>args := as\<rparr>)\<rparr>)\<rparr>, None)
                  else (st1, None)))"

text \<open>One call of \<open>deserializeAndPreloadCanvasEvents\<close> that nothing else interleaves with.\<close>

definition deserializeAndPreloadCanvasEvents ::
  "recording \<Rightarrow> state \<Rightarrow> canvasMutationData \<Rightarrow> ref \<Rightarrow> error + state" where
  "deserializeAndPreloadCanvasEvents w st data event =
     (let (st1, pending) = deserializeAndPreloadCanvasEvents_start st data event
      in if pending
         then (case deserializeAndPreloadCanvasEvents_finish w st1 data event of
                 (st2, Some e) \<Rightarrow> Inl e
               | (st2, None) \<Rightarrow> Inr st2)
         else Inr st1)"

subsection \<open>The preload scheduler\<close>

text \<open>
  The loop of \<open>preload\<close> over \<open>eventsToPreload\<close>, from an iteration's start to the next
  \<open>await\<close>: events in the buffer or in \<open>canvasEventMap\<close> are passed over, the first other
  one is added to the buffer and its resolution is started.
\<close>

fun preload_loop :: "recording \<Rightarrow> state \<Rightarrow> ref list \<Rightarrow> state \<times> task" where
  "preload_loop w st [] = (st, Finished)"
| "preload_loop w st (event # rest) =
     (if event \<notin> set (preloadBuffer st) \<and> canvasEventMap st event = None
      then (let st1 = st\<lparr>preloadBuffer := Set_add event (preloadBuffer st),
                           resolutions := resolutions st @ [event]\<rparr>;
                (st2, pending) =
                  deserializeAndPreloadCanvasEvents_start st1 (mutation (heap w event)) event
            in (st2, if pending then Decoding event rest else Settled event rest))
      else preload_loop w st rest)"

text \<open>
  The starting index of \<open>preload\<close>: \<open>nextPreloadIndex\<close> when it is truthy (neither \<open>null\<close> nor
  \<open>0\<close>), else the index \<open>findEvent\<close> gives for the current event, else \<open>0\<close>.
\<close>

definition currentIndex :: "recording \<Rightarrow> state \<Rightarrow> ref option \<Rightarrow> int" where
  "currentIndex w st currentEvent =
     (case nextPreloadIndex st of
        Some i \<Rightarrow>
          if i \<noteq> 0 then i
          else (case currentEvent of
                  Some e \<Rightarrow> findEvent (heap w) (canvasMutationEvents w) e
                | None \<Rightarrow> 0)
      | None \<Rightarrow>
          (case currentEvent of
             Some e \<Rightarrow> findEvent (heap w) (canvasMutationEvents w) e
           | None \<Rightarrow> 0))"

definition eventsToPreload :: "recording \<Rightarrow> state \<Rightarrow> ref option \<Rightarrow> ref list" where
  "eventsToPreload w st currentEvent =
     slice (canvasMutationEvents w) (currentIndex w st currentEvent)
       (currentIndex w st currentEvent + PRELOAD_BUFFER_SIZE - int (length (preloadBuffer st)))"

text \<open>A call of \<open>preload\<close>, up to its first \<open>await\<close> (or its end).\<close>

definition preload :: "recording \<Rightarrow> state \<Rightarrow> ref option \<Rightarrow> state" where
  "preload w st currentEvent =
     (let st1 = st\<lparr>nextPreloadIndex := Some (currentIndex w st currentEvent + 1)\<rparr>;
          (st2, t) = preload_loop w st1 (eventsToPreload w st currentEvent)
      in st2\<lparr>tasks := tasks st2 @ [t]\<rparr>)"

subsection \<open>Applying a mutation\<close>

definition cloneCanvas :: "state \<Rightarrow> int \<Rightarrow> SourceNode \<Rightarrow> state \<times> HTMLCanvasElement" where
  "cloneCanvas st i node =
     (let cloneNode = \<lparr>width = attr_width node, height = attr_height node, drawn = []\<rparr>
      in (st\<lparr>canvases := (canvases st)(i \<mapsto> cloneNode)\<rparr>, cloneNode))"

text \<open>
  \<open>canvasMutation\<close> is rrweb's: it takes the precomputed mutation of \<open>canvasEventMap\<close> when
  there is one, else the recorded one, and replays its draw calls on the target, in their
  order. Before a draw call is replayed, the serialized references that are left among its
  arguments are decoded, through the handle cache \<open>imageMap\<close> that \<open>processMutation\<close> passes
  on: a payload that is not in the cache is decoded and, when that succeeds, cached.
\<close>

fun cacheDecoded ::
  "(payload \<Rightarrow> handle option) \<Rightarrow> (payload \<rightharpoonup> handle) \<Rightarrow> payload list \<Rightarrow> (payload \<rightharpoonup> handle)" where
  "cacheDecoded dec imap [] = imap"
| "cacheDecoded dec imap (p # ps) =
     (case imap p of
        Some h \<Rightarrow> cacheDecoded dec imap ps
      | None \<Rightarrow>
          (case dec p of
             None \<Rightarrow> cacheDecoded dec imap ps
           | Some h \<Rightarrow> cacheDecoded dec (imap(p \<mapsto> h)) ps))"

definition precomputedMutation :: "state \<Rightarrow> ref \<Rightarrow> canvasMutationData \<Rightarrow> canvasMutationData" where
  "precomputedMutation st e data = (case canvasEventMap st e of Some m \<Rightarrow> m | None \<Rightarrow> data)"

definition commandsOf :: "canvasMutationData \<Rightarrow> command list" where
  "commandsOf m = (case body m of Batch cs \<Rightarrow> cs | Call c \<Rightarrow> [c])"

text \<open>
  \<open>processMutation\<close> up to \<open>await canvasMutation(...)\<close>. Reading \<open>source.clientWidth\<close> when
  the mirror has no node is a \<open>TypeError\<close>.
\<close>

definition processMutation_start ::
  "recording \<Rightarrow> (int \<rightharpoonup> SourceNode) \<Rightarrow> state \<Rightarrow> ref \<Rightarrow> error + state \<times> task" where
  "processMutation_start w mirror st e =
     (let data = mutation (heap w e);
          source = mirror (data_id data);
          (st1, target) =
            (case canvases st (data_id data) of
               Some t \<Rightarrow> (st, Some t)
             | None \<Rightarrow>
                 (case source of
                    None \<Rightarrow> (st, None)
                  | Some node \<Rightarrow>
                      (let (st', t) = cloneCanvas st (data_id data) node in (st', Some t))))
      in case target of
           None \<Rightarrow> Inr (st1, Finished)
         | Some t \<Rightarrow>
             (case source of
                None \<Rightarrow> Inl TypeError
              | Some node \<Rightarrow>
                  (let t1 = t\<lparr>width := clientWidth node, height := clientHeight node\<rparr>;
                       st2 = st1\<lparr>canvases := (canvases st1)(data_id data \<mapsto> t1)\<rparr>
                   in Inr (st2, Applying e (data_id data)
                             (commandsOf (precomputedMutation st2 e data))))))"

text \<open>The \<open>errorHandler\<close> that \<open>processMutation\<close> gives to \<open>canvasMutation\<close>.\<close>

definition errorHandler :: "state \<Rightarrow> thrown \<Rightarrow> state" where
  "errorHandler st err =
     (case err of
        ErrorObject m \<Rightarrow> st\<lparr>captured := captured st @ [err]\<rparr>
      | OtherValue v \<Rightarrow> st\<lparr>console_error := console_error st @ [err]\<rparr>)"

text \<open>
  One draw call of a \<open>canvasMutation\<close> in flight: the references among its arguments are
  decoded; then it takes effect on the target, or what it throws goes to the error handler
  and the call is skipped.
\<close>

definition draw :: "recording \<Rightarrow> state \<Rightarrow> int \<Rightarrow> command \<Rightarrow> state" where
  "draw w st cid c =
     (let st1 = st\<lparr>decoded := decoded st @ uncached (imageMap st) (arg_references (args c)),
                    imageMap := cacheDecoded (decode w) (imageMap st) (arg_references (args c))\<rparr>
      in case drawThrows w c of
           Some err \<Rightarrow> errorHandler st1 err
         | None \<Rightarrow>
             (case canvases st1 cid of
                None \<Rightarrow> st1
              | Some t \<Rightarrow> st1\<lparr>canvases := (canvases st1)(cid \<mapsto> t\<lparr>drawn := drawn t @ [c]\<rparr>)\<rparr>))"

text \<open>
  \<open>processMutation\<close> after \<open>canvasMutation\<close> has returned: the placeholder of the canvas, when
  there is one, shows the target (\<open>img.src = target.toDataURL()\<close>).
\<close>

definition publish :: "state \<Rightarrow> int \<Rightarrow> state" where
  "publish st cid =
     (case containers st cid of
        None \<Rightarrow> st
      | Some img \<Rightarrow> st\<lparr>containers := (containers st)(cid \<mapsto> img\<lparr>src := canvases st cid\<rparr>)\<rparr>)"

text \<open>One \<open>processMutation\<close> call that nothing else interleaves with.\<close>

definition processMutation ::
  "recording \<Rightarrow> (int \<rightharpoonup> SourceNode) \<Rightarrow> state \<Rightarrow> ref \<Rightarrow> error + state" where
  "processMutation w mirror st e =
     (case processMutation_start w mirror st e of
        Inl err \<Rightarrow> Inl err
      | Inr (st1, Applying ev cid cs) \<Rightarrow> Inr (publish (foldl (\<lambda>s c. draw w s cid c) st1 cs) cid)
      | Inr (st1, t) \<Rightarrow> Inr st1)"

subsection \<open>The handler and the interleaving of the calls\<close>

text \<open>
  \<open>onBuild\<close>: a canvas element that the replayer has built gets its placeholder image, the
  one it already has or a new one.
\<close>

record Node =
  nodeName :: string
  nodeType :: nat

definition onBuild :: "state \<Rightarrow> Node option \<Rightarrow> int \<Rightarrow> state" where
  "onBuild st node i =
     (case node of
        None \<Rightarrow> st
      | Some n \<Rightarrow>
          if nodeName n = ''CANVAS'' \<and> nodeType n = 1
          then (let el = (case containers st i of Some img \<Rightarrow> img | None \<Rightarrow> \<lparr>src = None\<rparr>)
                in st\<lparr>containers := (containers st)(i \<mapsto> el)\<rparr>)
          else st)"

text \<open>
  \<open>handler\<close>: nothing unless \<open>isSync\<close>; then the cursor is reset and, for a canvas mutation,
  \<open>processMutation\<close> is started and not awaited (\<open>void\<close>).
\<close>

definition handler ::
  "recording \<Rightarrow> (int \<rightharpoonup> SourceNode) \<Rightarrow> state \<Rightarrow> ref \<Rightarrow> bool \<Rightarrow> state" where
  "handler w mirror st e isSync =
     (if isSync
      then (let st1 = st\<lparr>nextPreloadIndex := None\<rparr>
            in if isCanvasMutation (heap w e)
               then (case processMutation_start w mirror st1 e of
                       Inl err \<Rightarrow> st1\<lparr>tasks := tasks st1 @ [Thrown err]\<rparr>
                     | Inr (st2, t) \<Rightarrow> st2\<lparr>tasks := tasks st2 @ [t]\<rparr>)
               else st1)
      else st)"

text \<open>
  A suspended call continues, up to its next \<open>await\<close>. For a resolution in flight the decodes
  settle; for a settled resolution \<open>preload\<close> resumes: it deletes the event from the buffer
  and goes on with its loop; a \<open>canvasMutation\<close> in flight replays its next draw call, and
  after the last one \<open>processMutation\<close> publishes the target.
\<close>

definition wake :: "recording \<Rightarrow> state \<Rightarrow> nat \<Rightarrow> state" where
  "wake w st i =
     (if i < length (tasks st)
      then (case tasks st ! i of
              Decoding event rest \<Rightarrow>
                (case deserializeAndPreloadCanvasEvents_finish w st (mutation (heap w event)) event of
                   (st1, Some err) \<Rightarrow> st1\<lparr>tasks := (tasks st1)[i := Failed event]\<rparr>
                 | (st1, None) \<Rightarrow> st1\<lparr>tasks := (tasks st1)[i := Settled event rest]\<rparr>)
            | Settled event rest \<Rightarrow>
                (let st1 = st\<lparr>preloadBuffer := Set_delete event (preloadBuffer st)\<rparr>;
                     (st2, t) = preload_loop w st1 rest
                 in st2\<lparr>tasks := (tasks st2)[i := t]\<rparr>)
            | Applying e cid (c # cs) \<Rightarrow>
                (draw w st cid c)\<lparr>tasks := (tasks st)[i := Applying e cid cs]\<rparr>
            | Applying e cid [] \<Rightarrow>
                (publish st cid)\<lparr>tasks := (tasks st)[i := Finished]\<rparr>
            | _ \<Rightarrow> st)
      else st)"

text \<open>
  What can happen to a plugin: a call of \<open>preload\<close>, a delivery of an event to \<open>handler\<close>
  (with the mirror of that moment), a call of \<open>onBuild\<close>, or the continuation of a suspended
  call. A schedule is a list of these; every interleaving of the asynchronous calls is one
  schedule.
\<close>

datatype action =
  Preload "ref option"
  | Handler ref bool "int \<rightharpoonup> SourceNode"
  | OnBuild "Node option" int
  | Wake nat

fun step :: "recording \<Rightarrow> state \<Rightarrow> action \<Rightarrow> state" where
  "step w st (Preload currentEvent) = preload w st currentEvent"
| "step w st (Handler e isSync mirror) = handler w mirror st e isSync"
| "step w st (OnBuild node i) = onBuild st node i"
| "step w st (Wake i) = wake w st i"

definition run :: "recording \<Rightarrow> state \<Rightarrow> action list \<Rightarrow> state" where
  "run w st acts = foldl (step w) st acts"

text \<open>Constructing the plugin calls \<open>preload()\<close> once, without awaiting it.\<close>

definition CanvasReplayerPlugin :: "recording \<Rightarrow> state" where
  "CanvasReplayerPlugin w = preload w init None"

subsection \<open>The events that suspended preload calls keep in the buffer\<close>

text \<open>
  A \<open>preload\<close> call that is suspended at its \<open>await\<close> has added one event to the buffer and
  not yet deleted it; a call that ended by an exception never deletes its event.
\<close>

fun holders :: "task list \<Rightarrow> ref list" where
  "holders [] = []"
| "holders (Decoding e rest # ts) = e # holders ts"
| "holders (Settled e rest # ts) = e # holders ts"
| "holders (Failed e # ts) = e # holders ts"
| "holders (t # ts) = holders ts"

definition window_inv :: "state \<Rightarrow> bool" where
  "window_inv st \<longleftrightarrow>
     distinct (preloadBuffer st) \<and>
     int (length (preloadBuffer st)) \<le> PRELOAD_BUFFER_SIZE \<and>
     distinct (holders (tasks st)) \<and>
     set (holders (tasks st)) \<subseteq> set (preloadBuffer st)"

subsection \<open>What the prefetch keeps of an event with a reference\<close>



subsection \<open>The deliveries that start an apply of a canvas\<close>

fun starts_apply :: "recording \<Rightarrow> int \<Rightarrow> action \<Rightarrow> bool" where
  "starts_apply w cid (Handler e isSync mirror) =
     (isSync \<and> isCanvasMutation (heap w e) \<and> data_id (mutation (heap w e)) = cid)"
| "starts_apply w cid a = False"

subsection \<open>Example recordings\<close>

definition fillRect :: command where
  "fillRect = \<lparr>property = ''fillRect'', args = [Primitive ''0'', Primitive ''0'', Primitive ''300'', Primitive ''150'']\<rparr>"

definition clearRect :: command where
  "clearRect = \<lparr>property = ''clearRect'', args = [Primitive ''10'', Primitive ''10'', Primitive ''20'', Primitive ''20'']\<rparr>"

definition drawImage :: "payload \<Rightarrow> command" where
  "drawImage p = \<lparr>property = ''drawImage'', args = [SerializedReference ''HTMLImageElement'' p, Primitive ''0'', Primitive ''0'']\<rparr>"

definition canvasEvent :: "nat \<Rightarrow> int \<Rightarrow> mutation_body \<Rightarrow> eventWithTime" where
  "canvasEvent ts cid b =
     \<lparr>etype = IncrementalSnapshot, source = Some CanvasMutation, timestamp = ts,
      mutation = \<lparr>data_id = cid, body = b\<rparr>\<rparr>"

text \<open>
  Four canvas mutations of canvas 7: objects 0 and 1 with primitive arguments only, objects
  2 and 3 each with one serialized reference (payloads 5 and 6).
\<close>

definition exampleHeap :: "ref \<Rightarrow> eventWithTime" where
  "exampleHeap r =
     (if r = 0 then canvasEvent 100 7 (Batch [fillRect, fillRect])
      else if r = 1 then canvasEvent 200 7 (Call clearRect)
      else if r = 2 then canvasEvent 300 7 (Call (drawImage 5))
      else canvasEvent 400 7 (Batch [drawImage 6]))"

definition primitiveRecording :: recording where
  "primitiveRecording =
     \<lparr>heap = exampleHeap, events = [0, 1], decode = (\<lambda>p. Some (p + 100)),
      drawThrows = (\<lambda>c. None)\<rparr>"

definition referenceRecording :: recording where
  "referenceRecording =
     \<lparr>heap = exampleHeap, events = [2, 3], decode = (\<lambda>p. Some (p + 100)),
      drawThrows = (\<lambda>c. None)\<rparr>"


text \<open>The stream of events 2 and 3, where payload 5 cannot be decoded.\<close>

definition brokenRecording :: recording where
  "brokenRecording =
     \<lparr>heap = exampleHeap, events = [2, 3],
      decode = (\<lambda>p. if p = 5 then None else Some (p + 100)),
      drawThrows = (\<lambda>c. None)\<rparr>"

text \<open>Two mutations of canvas 7, two objects, that draw the same image (payload 5).\<close>

definition sharedRecording :: recording where
  "sharedRecording =
     \<lparr>heap = (\<lambda>r. canvasEvent r 7 (Call (drawImage 5))), events = [0, 1],
      decode = (\<lambda>p. Some (p + 100)), drawThrows = (\<lambda>c. None)\<rparr>"

text \<open>Forty mutations of canvas 7, each its own object, none with a reference.\<close>

definition longRecording :: recording where
  "longRecording =
     \<lparr>heap = (\<lambda>r. canvasEvent r 7 (Call fillRect)), events = [0..<40],
      decode = (\<lambda>p. Some p), drawThrows = (\<lambda>c. None)\<rparr>"

definition canvasNode :: "nat \<Rightarrow> nat \<Rightarrow> SourceNode" where
  "canvasNode cw ch = \<lparr>attr_width = 300, attr_height = 150, clientWidth = cw, clientHeight = ch\<rparr>"

text \<open>A mirror that knows canvas 7, and one that knows no node.\<close>

definition mirror7 :: "nat \<Rightarrow> nat \<Rightarrow> (int \<rightharpoonup> SourceNode)" where
  "mirror7 cw ch = [7 \<mapsto> canvasNode cw ch]"

definition emptyMirror :: "int \<rightharpoonup> SourceNode" where
  "emptyMirror = Map.empty"

section \<open>Properties\<close>

subsection \<open>The handler outside of a seek\<close>

text \<open>
  C10. An event delivered to the handler with \<open>isSync = false\<close> changes nothing: the cursor,
  the preload buffer, both caches, the targets, the placeholders and the calls in flight
  are as before, so no mutation is applied.
\<close>

theorem handler_not_sync_noop: "handler w mirror st e False = st"
  by (simp add: handler_def)

subsection \<open>The starting index of a preload\<close>

lemma currentIndex_no_cursor_no_event:
  "nextPreloadIndex st = None \<Longrightarrow> currentIndex w st None = 0"
  by (simp add: currentIndex_def)

lemma currentIndex_after_reset:
  "nextPreloadIndex st = None \<Longrightarrow>
   currentIndex w st (Some e) = findEvent (heap w) (canvasMutationEvents w) e"
  by (simp add: currentIndex_def)

lemma canvasMutationEvents_primitiveRecording:
  "canvasMutationEvents primitiveRecording = [0, 1]"
  by (simp add: canvasMutationEvents_def primitiveRecording_def exampleHeap_def canvasEvent_def
      isCanvasMutation_def)

text \<open>
  C2, on the code. Objects 0 and 1 are the canvas mutations at indices 0 and 1 of the
  stream, both of canvas 7. After a reset, \<open>preload\<close> given the event at index 1 starts at
  index 0, because \<open>findEvent\<close> compares \<open>data.id\<close>, the id of the canvas, and so finds the
  first mutation of the same canvas: it enqueues the event at index 0.
\<close>

theorem preload_after_reset_starts_before_event:
  "canvasMutationEvents primitiveRecording ! 1 = 1 \<and>
   currentIndex primitiveRecording (init\<lparr>nextPreloadIndex := None\<rparr>) (Some 1) = 0 \<and>
   preloadBuffer (preload primitiveRecording (init\<lparr>nextPreloadIndex := None\<rparr>) (Some 1)) = [0]"
  by code_simp

subsection \<open>Resolving a mutation\<close>

lemma Promise_all_map_Inr: "Promise_all (map Inr xs) = Inr xs"
  by (induction xs) simp_all

lemma deserialize_args_no_references:
  "arg_references as = [] \<Longrightarrow> deserialize_args dec imap st as = (imap, st, map Inr as)"
proof (induction as arbitrary: st)
  case Nil
  then show ?case by simp
next
  case (Cons a as)
  then show ?case
    by (cases a) (simp_all add: deserializeCanvasArg_def)
qed

lemma deserialize_args_result:
  "deserialize_args dec imap st as = (imap', st', rs) \<Longrightarrow> Promise_all rs = Inr bs \<Longrightarrow>
   arg_references bs = [] \<and> isUnchanged st' = (isUnchanged st \<and> arg_references as = [])"
proof (induction as arbitrary: imap st imap' st' rs bs)
  case Nil
  then show ?case by auto
next
  case (Cons a as)
  obtain m1 s1 r where a: "deserializeCanvasArg dec imap st a = (m1, s1, r)"
    by (cases "deserializeCanvasArg dec imap st a") auto
  obtain m2 s2 rs2 where b: "deserialize_args dec m1 s1 as = (m2, s2, rs2)"
    by (cases "deserialize_args dec m1 s1 as") auto
  from Cons.prems(1) a b have eq: "st' = s2" "rs = r # rs2" by simp_all
  from Cons.prems(2) eq obtain b1 bs2 where r: "r = Inr b1" "Promise_all rs2 = Inr bs2" "bs = b1 # bs2"
    by (cases r; cases "Promise_all rs2") auto
  from Cons.IH [OF b r(2)] have ih: "arg_references bs2 = []"
    "isUnchanged s2 = (isUnchanged s1 \<and> arg_references as = [])" by simp_all
  from a r(1) have "arg_references [b1] = [] \<and> isUnchanged s1 = (isUnchanged st \<and> arg_references [a] = [])"
    by (cases a) (auto simp: deserializeCanvasArg_def split: option.splits)
  with ih eq r(3) show ?case
    by (cases a; cases b1) auto
qed

lemma deserialize_commands_no_references:
  "concat (map (\<lambda>c. arg_references (args c)) cs) = [] \<Longrightarrow>
   deserialize_commands dec imap st cs = (imap, st, map Inr cs)"
proof (induction cs arbitrary: st)
  case Nil
  then show ?case by simp
next
  case (Cons c cs)
  then show ?case
    by (simp add: deserialize_args_no_references Promise_all_map_Inr)
qed

lemma deserialize_commands_result:
  "deserialize_commands dec imap st cs = (imap', st', rs) \<Longrightarrow> Promise_all rs = Inr ds \<Longrightarrow>
   concat (map (\<lambda>c. arg_references (args c)) ds) = [] \<and>
   isUnchanged st' = (isUnchanged st \<and> concat (map (\<lambda>c. arg_references (args c)) cs) = [])"
proof (induction cs arbitrary: imap st imap' st' rs ds)
  case Nil
  then show ?case by auto
next
  case (Cons c cs)
  obtain m1 s1 as where a: "deserialize_args dec imap st (args c) = (m1, s1, as)"
    by (cases "deserialize_args dec imap st (args c)") auto
  obtain m2 s2 rs2 where b: "deserialize_commands dec m1 s1 cs = (m2, s2, rs2)"
    by (cases "deserialize_commands dec m1 s1 cs") auto
  let ?r = "case Promise_all as of Inl e \<Rightarrow> Inl e | Inr bs \<Rightarrow> Inr (c\<lparr>args := bs\<rparr>)"
  from Cons.prems(1) a b have eq: "st' = s2" "rs = ?r # rs2" by simp_all
  from Cons.prems(2) eq obtain bs ds2 where r: "Promise_all as = Inr bs" "Promise_all rs2 = Inr ds2"
    "ds = c\<lparr>args := bs\<rparr> # ds2"
    by (cases "Promise_all as"; cases "Promise_all rs2") auto
  from Cons.IH [OF b r(2)] deserialize_args_result [OF a r(1)] eq r(3) show ?case
    by auto
qed

lemma arg_references_empty_iff:
  "arg_references as = [] \<longleftrightarrow> (\<forall>a \<in> set as. \<forall>kind p. a \<noteq> SerializedReference kind p)"
  by (induction as rule: arg_references.induct) auto

lemma references_empty_iff:
  "references data = [] \<longleftrightarrow>
   (\<forall>c \<in> set (commandsOf data). \<forall>a \<in> set (args c). \<forall>kind p. a \<noteq> SerializedReference kind p)"
  by (cases "body data") (auto simp: references_def commandsOf_def arg_references_empty_iff)

lemma finish_no_references:
  "references data = [] \<Longrightarrow> deserializeAndPreloadCanvasEvents_finish w st data ev = (st, None)"
  by (cases "body data")
    (simp_all add: deserializeAndPreloadCanvasEvents_finish_def references_def
      deserialize_commands_no_references deserialize_args_no_references Promise_all_map_Inr)

text \<open>
  What the second half changes: the cache, and, when it ends without an exception and the
  mutation has a reference, the entry of the event, in which no reference is left.
\<close>

lemma finish_shape:
  assumes "deserializeAndPreloadCanvasEvents_finish w st data ev = (st', eo)"
  shows "\<exists>imap. st' = st\<lparr>imageMap := imap\<rparr> \<and> (eo = None \<longrightarrow> references data = []) \<or>
           eo = None \<and> references data \<noteq> [] \<and>
           (\<exists>d. st' = st\<lparr>imageMap := imap,
                          canvasEventMap := (canvasEventMap st)(ev \<mapsto> d)\<rparr> \<and>
                 references d = [])"
proof (cases "body data")
  case (Batch cs)
  obtain imap s rs where
    a: "deserialize_commands (decode w) (imageMap st) \<lparr>isUnchanged = True\<rparr> cs = (imap, s, rs)"
    by (cases "deserialize_commands (decode w) (imageMap st) \<lparr>isUnchanged = True\<rparr> cs") auto
  show ?thesis
  proof (cases "Promise_all rs")
    case (Inl e)
    with assms Batch a show ?thesis
      by (intro exI [of _ imap]) (auto simp: deserializeAndPreloadCanvasEvents_finish_def)
  next
    case (Inr ds)
    from deserialize_commands_result [OF a Inr] Batch
    have r: "concat (map (\<lambda>c. arg_references (args c)) ds) = []"
      "isUnchanged s = (references data = [])"
      by (simp_all add: references_def)
    show ?thesis
    proof (cases "references data = []")
      case True
      with assms Batch a Inr r show ?thesis
        by (intro exI [of _ imap]) (auto simp: deserializeAndPreloadCanvasEvents_finish_def)
    next
      case False
      with assms Batch a Inr r have
        "eo = None \<and> st' = st\<lparr>imageMap := imap,
            canvasEventMap := (canvasEventMap st)(ev \<mapsto> data\<lparr>body := Batch ds\<rparr>)\<rparr>"
        by (auto simp: deserializeAndPreloadCanvasEvents_finish_def)
      moreover from r(1) have "references (data\<lparr>body := Batch ds\<rparr>) = []"
        by (simp add: references_def)
      ultimately show ?thesis using False by blast
    qed
  qed
next
  case (Call c)
  obtain imap s rs where
    a: "deserialize_args (decode w) (imageMap st) \<lparr>isUnchanged = True\<rparr> (args c) = (imap, s, rs)"
    by (cases "deserialize_args (decode w) (imageMap st) \<lparr>isUnchanged = True\<rparr> (args c)") auto
  show ?thesis
  proof (cases "Promise_all rs")
    case (Inl e)
    with assms Call a show ?thesis
      by (intro exI [of _ imap]) (auto simp: deserializeAndPreloadCanvasEvents_finish_def)
  next
    case (Inr bs)
    from deserialize_args_result [OF a Inr] Call
    have r: "arg_references bs = []" "isUnchanged s = (references data = [])"
      by (simp_all add: references_def)
    show ?thesis
    proof (cases "references data = []")
      case True
      with assms Call a Inr r show ?thesis
        by (intro exI [of _ imap]) (auto simp: deserializeAndPreloadCanvasEvents_finish_def)
    next
      case False
      with assms Call a Inr r have
        "eo = None \<and> st' = st\<lparr>imageMap := imap,
            canvasEventMap := (canvasEventMap st)(ev \<mapsto> data\<lparr>body := Call (c\<lparr>args := bs\<rparr>)\<rparr>)\<rparr>"
        by (auto simp: deserializeAndPreloadCanvasEvents_finish_def)
      moreover from r(1) have "references (data\<lparr>body := Call (c\<lparr>args := bs\<rparr>)\<rparr>) = []"
        by (simp add: references_def)
      ultimately show ?thesis using False by blast
    qed
  qed
qed

lemma finish_references:
  assumes "deserializeAndPreloadCanvasEvents_finish w st data ev = (st', None)"
    and "references data \<noteq> []"
  shows "\<exists>imap d. st' = st\<lparr>imageMap := imap,
                           canvasEventMap := (canvasEventMap st)(ev \<mapsto> d)\<rparr> \<and>
                  references d = []"
  using finish_shape [OF assms(1)] assms(2) by blast

text \<open>
  C4. Resolving a mutation none of whose arguments is a serialized reference stores no
  entry: the call succeeds and leaves the state, \<open>canvasEventMap\<close> included, as it was. And
  when a resolution does change \<open>canvasEventMap\<close>, the mutation has a serialized reference
  and the entry stored for the event differs from the recorded mutation: decoding has
  changed content.
\<close>

theorem primitive_only_stores_nothing:
  "(references data = [] \<longrightarrow> deserializeAndPreloadCanvasEvents w st data ev = Inr st) \<and>
   (deserializeAndPreloadCanvasEvents w st data ev = Inr st' \<and>
    canvasEventMap st' \<noteq> canvasEventMap st \<longrightarrow>
      references data \<noteq> [] \<and> (\<exists>d. canvasEventMap st' ev = Some d \<and> d \<noteq> data))"
proof (intro conjI impI)
  assume n: "references data = []"
  show "deserializeAndPreloadCanvasEvents w st data ev = Inr st"
    by (simp add: deserializeAndPreloadCanvasEvents_def deserializeAndPreloadCanvasEvents_start_def
        n finish_no_references uncached_def)
next
  assume a: "deserializeAndPreloadCanvasEvents w st data ev = Inr st' \<and>
    canvasEventMap st' \<noteq> canvasEventMap st"
  show r: "references data \<noteq> []"
  proof
    assume n: "references data = []"
    have "deserializeAndPreloadCanvasEvents w st data ev = Inr st"
      by (simp add: deserializeAndPreloadCanvasEvents_def deserializeAndPreloadCanvasEvents_start_def
        n finish_no_references uncached_def)
    with a show False by auto
  qed
  show "\<exists>d. canvasEventMap st' ev = Some d \<and> d \<noteq> data"
  proof (cases "canvasEventMap st ev = None")
    case True
    let ?st0 = "st\<lparr>decoded := decoded st @ uncached (imageMap st) (references data)\<rparr>"
    from a True have f: "deserializeAndPreloadCanvasEvents_finish w ?st0 data ev = (st', None)"
      by (cases "deserializeAndPreloadCanvasEvents_finish w ?st0 data ev")
        (auto simp: deserializeAndPreloadCanvasEvents_def
          deserializeAndPreloadCanvasEvents_start_def split: option.splits)
    from finish_references [OF f r] obtain imap d where
      "st' = ?st0\<lparr>imageMap := imap, canvasEventMap := (canvasEventMap ?st0)(ev \<mapsto> d)\<rparr>"
      "references d = []" by auto
    with r show ?thesis by auto
  next
    case False
    with a show ?thesis
      by (auto simp: deserializeAndPreloadCanvasEvents_def deserializeAndPreloadCanvasEvents_start_def)
  qed
qed

theorem primitive_only_stores_nothing_witness:
  "references (mutation (exampleHeap 1)) = [] \<and>
   deserializeAndPreloadCanvasEvents primitiveRecording init (mutation (exampleHeap 1)) 1 = Inr init \<and>
   (\<exists>st'. deserializeAndPreloadCanvasEvents referenceRecording init (mutation (exampleHeap 2)) 2 =
            Inr st' \<and>
          canvasEventMap st' \<noteq> canvasEventMap init \<and>
          references (mutation (exampleHeap 2)) \<noteq> [] \<and>
          (\<exists>d. canvasEventMap st' 2 = Some d \<and> d \<noteq> mutation (exampleHeap 2)))"
proof -
  have r1: "references (mutation (exampleHeap 1)) = []"
    by code_simp
  have "case deserializeAndPreloadCanvasEvents referenceRecording init (mutation (exampleHeap 2)) 2 of
          Inl err \<Rightarrow> False | Inr s \<Rightarrow> canvasEventMap s 2 \<noteq> None"
    by code_simp
  then obtain S where S:
    "deserializeAndPreloadCanvasEvents referenceRecording init (mutation (exampleHeap 2)) 2 = Inr S"
    "canvasEventMap S 2 \<noteq> None"
    by (cases "deserializeAndPreloadCanvasEvents referenceRecording init (mutation (exampleHeap 2)) 2")
      simp_all
  have "canvasEventMap init 2 = None" by (simp add: init_def)
  with S(2) have ne: "canvasEventMap S \<noteq> canvasEventMap init" by metis
  from primitive_only_stores_nothing
    [where data = "mutation (exampleHeap 1)" and w = primitiveRecording and st = init and ev = 1]
    r1
  have c1: "deserializeAndPreloadCanvasEvents primitiveRecording init (mutation (exampleHeap 1)) 1 =
    Inr init" by blast
  from primitive_only_stores_nothing
    [where data = "mutation (exampleHeap 2)" and w = referenceRecording and st = init and ev = 2
      and st' = S] S(1) ne
  have c2: "references (mutation (exampleHeap 2)) \<noteq> [] \<and>
    (\<exists>d. canvasEventMap S 2 = Some d \<and> d \<noteq> mutation (exampleHeap 2))" by blast
  from r1 c1 c2 S(1) ne show ?thesis by blast
qed

text \<open>
  C6, on the code. The stream is events 2 and 3, each with one serialized reference; the
  decode of payload 5, of event 2, fails. The resolution of event 2 is rejected and ends
  the \<open>preload\<close> call that awaited it: event 2 stays in the preload buffer, nothing reaches
  \<open>captureException\<close> or \<open>console.error\<close>, and event 3 is never resolved, its decode never
  requested, whatever is continued afterwards. When payload 5 can be decoded, the same
  schedule resolves event 3.
\<close>

theorem failed_decode_ends_preload:
  "tasks (run brokenRecording (CanvasReplayerPlugin brokenRecording) []) = [Decoding 2 [3]] \<and>
   tasks (run brokenRecording (CanvasReplayerPlugin brokenRecording) [Wake 0]) = [Failed 2] \<and>
   preloadBuffer (run brokenRecording (CanvasReplayerPlugin brokenRecording) [Wake 0]) = [2] \<and>
   canvasEventMap (run brokenRecording (CanvasReplayerPlugin brokenRecording) [Wake 0]) 2 = None \<and>
   captured (run brokenRecording (CanvasReplayerPlugin brokenRecording) [Wake 0]) = [] \<and>
   console_error (run brokenRecording (CanvasReplayerPlugin brokenRecording) [Wake 0]) = [] \<and>
   tasks (run brokenRecording (CanvasReplayerPlugin brokenRecording)
            [Wake 0, Wake 0, Wake 0, Wake 0]) = [Failed 2] \<and>
   preloadBuffer (run brokenRecording (CanvasReplayerPlugin brokenRecording)
            [Wake 0, Wake 0, Wake 0, Wake 0]) = [2] \<and>
   canvasEventMap (run brokenRecording (CanvasReplayerPlugin brokenRecording)
            [Wake 0, Wake 0, Wake 0, Wake 0]) 3 = None \<and>
   decoded (run brokenRecording (CanvasReplayerPlugin brokenRecording)
            [Wake 0, Wake 0, Wake 0, Wake 0]) = [5] \<and>
   canvasEventMap (run referenceRecording (CanvasReplayerPlugin referenceRecording)
            [Wake 0, Wake 0, Wake 0, Wake 0]) 3 \<noteq> None"
  by code_simp

subsection \<open>The preload window\<close>

lemma finish_frame:
  assumes "deserializeAndPreloadCanvasEvents_finish w st data ev = (st', eo)"
  shows "preloadBuffer st' = preloadBuffer st \<and> tasks st' = tasks st \<and>
         resolutions st' = resolutions st \<and> canvases st' = canvases st \<and>
         (canvasEventMap st' = canvasEventMap st \<or>
          eo = None \<and> references data \<noteq> [] \<and>
          (\<exists>d. canvasEventMap st' = (canvasEventMap st)(ev \<mapsto> d) \<and> references d = []))"
  using finish_shape [OF assms] by auto

lemma preload_loop_cases:
  "preload_loop w st evs = (st', t) \<Longrightarrow>
   (t = Finished \<and> st' = st) \<or>
   (\<exists>e rest. t = Decoding e rest \<and> e \<notin> set (preloadBuffer st) \<and> canvasEventMap st e = None \<and>
      evs \<noteq> [] \<and>
      st' = st\<lparr>preloadBuffer := preloadBuffer st @ [e],
               resolutions := resolutions st @ [e],
               decoded := decoded st @
                 uncached (imageMap st) (references (mutation (heap w e)))\<rparr>)"
proof (induction evs)
  case Nil
  then show ?case by auto
next
  case (Cons a evs)
  then show ?case
    by (auto simp: Set_add_def deserializeAndPreloadCanvasEvents_start_def split: if_splits)
qed

lemma slice_same: "slice xs k k = []"
  by (simp add: slice_def Let_def)

lemma eventsToPreload_full:
  "int (length (preloadBuffer st)) = PRELOAD_BUFFER_SIZE \<Longrightarrow> eventsToPreload w st cur = []"
  by (simp add: eventsToPreload_def slice_same)

lemma processMutation_start_frame:
  "processMutation_start w mirror st e = Inr (st2, t) \<Longrightarrow>
   preloadBuffer st2 = preloadBuffer st \<and> tasks st2 = tasks st \<and>
   resolutions st2 = resolutions st \<and>
   canvasEventMap st2 = canvasEventMap st \<and> holders [t] = [] \<and>
   (\<forall>rest. t \<noteq> Settled ev rest)"
  by (auto simp: processMutation_start_def cloneCanvas_def Let_def split: option.splits)

lemma draw_frame:
  "preloadBuffer (draw w st cid cmd) = preloadBuffer st \<and>
   tasks (draw w st cid cmd) = tasks st \<and>
   resolutions (draw w st cid cmd) = resolutions st \<and>
   canvasEventMap (draw w st cid cmd) = canvasEventMap st"
  by (simp add: draw_def Let_def errorHandler_def split: option.splits thrown.splits)

lemma publish_frame:
  "preloadBuffer (publish st cid) = preloadBuffer st \<and>
   tasks (publish st cid) = tasks st \<and>
   resolutions (publish st cid) = resolutions st \<and>
   canvasEventMap (publish st cid) = canvasEventMap st"
  by (simp add: publish_def split: option.splits)

lemma onBuild_frame:
  "preloadBuffer (onBuild st node i) = preloadBuffer st \<and>
   tasks (onBuild st node i) = tasks st \<and>
   resolutions (onBuild st node i) = resolutions st \<and>
   canvasEventMap (onBuild st node i) = canvasEventMap st"
  by (simp add: onBuild_def Let_def split: option.splits)

lemma holders_append: "holders (ts @ us) = holders ts @ holders us"
  by (induction ts rule: holders.induct) simp_all

lemma holders_nth:
  "i < length ts \<Longrightarrow>
   holders ts = holders (take i ts) @ holders [ts ! i] @ holders (drop (Suc i) ts)"
  by (metis holders_append id_take_nth_drop append_Cons append_Nil)

lemma holders_update:
  "i < length ts \<Longrightarrow>
   holders (ts[i := t]) = holders (take i ts) @ holders [t] @ holders (drop (Suc i) ts)"
  by (metis holders_append upd_conv_take_nth_drop append_Cons append_Nil)

lemma holders_update_same:
  "i < length ts \<Longrightarrow> holders [t] = holders [ts ! i] \<Longrightarrow> holders (ts[i := t]) = holders ts"
  by (simp add: holders_update holders_nth [of i ts])

lemma window_inv_init: "window_inv init"
  by (simp add: window_inv_def init_def PRELOAD_BUFFER_SIZE_def)

lemma window_inv_preload:
  assumes "window_inv st"
  shows "window_inv (preload w st cur)"
proof -
  let ?st1 = "st\<lparr>nextPreloadIndex := Some (currentIndex w st cur + 1)\<rparr>"
  obtain st2 t where l: "preload_loop w ?st1 (eventsToPreload w st cur) = (st2, t)"
    by fastforce
  then have p: "preload w st cur = st2\<lparr>tasks := tasks st2 @ [t]\<rparr>"
    by (simp add: preload_def)
  from preload_loop_cases [OF l] show ?thesis
  proof (elim disjE conjE exE)
    assume "t = Finished" "st2 = ?st1"
    with assms p show ?thesis
      by (simp add: window_inv_def holders_append)
  next
    fix e rest
    assume t: "t = Decoding e rest" and e: "e \<notin> set (preloadBuffer ?st1)"
      and ne: "eventsToPreload w st cur \<noteq> []"
      and st2: "st2 = ?st1\<lparr>preloadBuffer := preloadBuffer ?st1 @ [e],
               resolutions := resolutions ?st1 @ [e],
               decoded := decoded ?st1 @
                 uncached (imageMap ?st1) (references (mutation (heap w e)))\<rparr>"
    from ne eventsToPreload_full [of st w cur]
    have neq: "int (length (preloadBuffer st)) \<noteq> PRELOAD_BUFFER_SIZE" by blast
    from assms have "int (length (preloadBuffer st)) \<le> PRELOAD_BUFFER_SIZE"
      by (simp add: window_inv_def)
    with neq have "int (length (preloadBuffer st)) < PRELOAD_BUFFER_SIZE" by linarith
    with assms p t e st2 show ?thesis
      by (auto simp: window_inv_def holders_append)
  qed
qed

lemma window_inv_handler:
  assumes "window_inv st"
  shows "window_inv (handler w mirror st e isSync)"
proof (cases "isSync \<and> isCanvasMutation (heap w e)")
  case False
  with assms show ?thesis by (auto simp: handler_def window_inv_def)
next
  case True
  let ?st1 = "st\<lparr>nextPreloadIndex := None\<rparr>"
  show ?thesis
  proof (cases "processMutation_start w mirror ?st1 e")
    case (Inl err)
    with True assms show ?thesis
      by (simp add: handler_def window_inv_def holders_append)
  next
    case (Inr r)
    obtain st2 t where r: "r = (st2, t)" by fastforce
    from processMutation_start_frame [OF Inr [unfolded r]] True assms Inr r show ?thesis
      by (simp add: handler_def window_inv_def holders_append)
  qed
qed

lemma window_inv_wake:
  assumes "window_inv st"
  shows "window_inv (wake w st i)"
proof (cases "i < length (tasks st)")
  case False
  with assms show ?thesis by (simp add: wake_def)
next
  case True
  show ?thesis
  proof (cases "tasks st ! i")
    case (Decoding ev rest)
    obtain st1 eo where
      f: "deserializeAndPreloadCanvasEvents_finish w st (mutation (heap w ev)) ev = (st1, eo)"
      by fastforce
    from finish_frame [OF f] True Decoding assms f show ?thesis
      by (cases eo) (simp_all add: wake_def window_inv_def holders_update_same)
  next
    case (Settled ev rest)
    let ?st1 = "st\<lparr>preloadBuffer := Set_delete ev (preloadBuffer st)\<rparr>"
    obtain st2 t where l: "preload_loop w ?st1 rest = (st2, t)" by fastforce
    with True Settled have wk: "wake w st i = st2\<lparr>tasks := (tasks st2)[i := t]\<rparr>"
      by (simp add: wake_def)
    let ?A = "holders (take i (tasks st))" and ?B = "holders (drop (Suc i) (tasks st))"
    from holders_nth [OF True] Settled
    have h: "holders (tasks st) = ?A @ [ev] @ ?B" by simp
    from assms h have d: "distinct (?A @ [ev] @ ?B)" "set (?A @ [ev] @ ?B) \<subseteq> set (preloadBuffer st)"
      "distinct (preloadBuffer st)" "int (length (preloadBuffer st)) \<le> PRELOAD_BUFFER_SIZE"
      by (simp_all add: window_inv_def)
    from d have inb: "ev \<in> set (preloadBuffer st)" by simp
    from d(3) inb have len: "length (removeAll ev (preloadBuffer st)) = length (preloadBuffer st) - 1"
      by (simp add: distinct_remove1_removeAll [symmetric] length_remove1)
    from inb have pos: "0 < length (preloadBuffer st)" by (cases "preloadBuffer st") auto
    from d have sub: "set (?A @ ?B) \<subseteq> set (removeAll ev (preloadBuffer st))" by auto
    from d have dab: "distinct (?A @ ?B)" by simp
    from preload_loop_cases [OF l] show ?thesis
    proof (elim disjE conjE exE)
      assume "t = Finished" "st2 = ?st1"
      with wk True d len sub dab show ?thesis
        by (simp add: window_inv_def holders_update Set_delete_def distinct_removeAll)
    next
      fix e rest'
      assume t: "t = Decoding e rest'" and e: "e \<notin> set (preloadBuffer ?st1)"
        and st2: "st2 = ?st1\<lparr>preloadBuffer := preloadBuffer ?st1 @ [e],
               resolutions := resolutions ?st1 @ [e],
               decoded := decoded ?st1 @
                 uncached (imageMap ?st1) (references (mutation (heap w e)))\<rparr>"
      from e sub have "e \<notin> set (?A @ ?B)" by (auto simp: Set_delete_def)
      with wk True d len pos sub dab t e st2 show ?thesis
        by (auto simp: window_inv_def holders_update Set_delete_def distinct_removeAll)
    qed
  next
    case (Failed ev)
    with True assms show ?thesis by (simp add: wake_def)
  next
    case (Applying ev cid cs)
    show ?thesis
    proof (cases cs)
      case Nil
      with True Applying assms publish_frame [of st cid] show ?thesis
        by (simp add: wake_def window_inv_def holders_update_same)
    next
      case (Cons c cs')
      with True Applying assms draw_frame [of w st cid c] show ?thesis
        by (simp add: wake_def window_inv_def holders_update_same)
    qed
  next
    case (Thrown err)
    with True assms show ?thesis by (simp add: wake_def)
  next
    case Finished
    with True assms show ?thesis by (simp add: wake_def)
  qed
qed

lemma window_inv_onBuild: "window_inv st \<Longrightarrow> window_inv (onBuild st node i)"
  by (simp add: window_inv_def onBuild_frame)

lemma window_inv_step: "window_inv st \<Longrightarrow> window_inv (step w st a)"
  by (cases a)
    (simp_all add: window_inv_preload window_inv_handler window_inv_wake window_inv_onBuild)

lemma window_inv_run: "window_inv st \<Longrightarrow> window_inv (run w st acts)"
  unfolding run_def
  by (induction acts arbitrary: st) (simp_all add: window_inv_step)

text \<open>
  C1. From the construction of the plugin on, whatever calls of \<open>preload\<close> are made, with
  or without a current event, whatever events are delivered to the handler and however the
  suspended calls are continued, the preload buffer never holds more than
  \<open>PRELOAD_BUFFER_SIZE\<close>, that is 30, events.
\<close>

theorem preloadBuffer_bounded:
  "int (length (preloadBuffer (run w (CanvasReplayerPlugin w) acts))) \<le> PRELOAD_BUFFER_SIZE"
proof -
  have "window_inv (CanvasReplayerPlugin w)"
    unfolding CanvasReplayerPlugin_def by (rule window_inv_preload) (rule window_inv_init)
  then have "window_inv (run w (CanvasReplayerPlugin w) acts)"
    by (rule window_inv_run)
  then show ?thesis by (simp add: window_inv_def)
qed

text \<open>
  The bound is reached: over forty events, \<open>preload\<close> called thirty-five more times with
  none of the calls continued leaves thirty events in the buffer.
\<close>

lemma preloadBuffer_can_be_full:
  "length (preloadBuffer
     (run longRecording (CanvasReplayerPlugin longRecording) (replicate 35 (Preload None)))) = 30"
  by code_simp

lemma resolved_out_preload:
  assumes "canvasEventMap st ev \<noteq> None" and "ev \<notin> set (preloadBuffer st)"
  shows "canvasEventMap (preload w st cur) ev \<noteq> None \<and> ev \<notin> set (preloadBuffer (preload w st cur))"
proof -
  let ?st1 = "st\<lparr>nextPreloadIndex := Some (currentIndex w st cur + 1)\<rparr>"
  obtain st2 t where l: "preload_loop w ?st1 (eventsToPreload w st cur) = (st2, t)"
    by fastforce
  then have p: "preload w st cur = st2\<lparr>tasks := tasks st2 @ [t]\<rparr>"
    by (simp add: preload_def)
  from preload_loop_cases [OF l] assms p show ?thesis by auto
qed

lemma resolved_out_handler:
  assumes "canvasEventMap st ev \<noteq> None" and "ev \<notin> set (preloadBuffer st)"
  shows "canvasEventMap (handler w mirror st e isSync) ev \<noteq> None \<and>
         ev \<notin> set (preloadBuffer (handler w mirror st e isSync))"
proof (cases "processMutation_start w mirror (st\<lparr>nextPreloadIndex := None\<rparr>) e")
  case (Inl err)
  with assms show ?thesis by (simp add: handler_def Let_def)
next
  case (Inr r)
  obtain st2 t where r: "r = (st2, t)" by fastforce
  from processMutation_start_frame [OF Inr [unfolded r]] assms Inr r show ?thesis
    by (simp add: handler_def Let_def)
qed

lemma resolved_out_loop:
  assumes "canvasEventMap st ev \<noteq> None" and "ev \<notin> set (preloadBuffer st)"
    and "preload_loop w st evs = (st2, t)"
  shows "canvasEventMap st2 ev \<noteq> None \<and> ev \<notin> set (preloadBuffer st2)"
  using preload_loop_cases [OF assms(3)] assms(1,2) by auto

lemma wake_settled:
  assumes "i < length (tasks st)" and "tasks st ! i = Settled e rest"
    and "canvasEventMap st ev \<noteq> None"
    and "ev \<notin> set (preloadBuffer st) \<or> ev = e"
  shows "canvasEventMap (wake w st i) ev \<noteq> None \<and> ev \<notin> set (preloadBuffer (wake w st i))"
proof -
  let ?st1 = "st\<lparr>preloadBuffer := Set_delete e (preloadBuffer st)\<rparr>"
  obtain st2 t where l: "preload_loop w ?st1 rest = (st2, t)" by fastforce
  with assms(1,2) have wk: "wake w st i = st2\<lparr>tasks := (tasks st2)[i := t]\<rparr>"
    by (simp add: wake_def)
  from assms(3,4) have "canvasEventMap ?st1 ev \<noteq> None" "ev \<notin> set (preloadBuffer ?st1)"
    by (auto simp: Set_delete_def)
  from resolved_out_loop [OF this l] wk show ?thesis by simp
qed

lemma resolved_out_wake:
  assumes "canvasEventMap st ev \<noteq> None" and "ev \<notin> set (preloadBuffer st)"
  shows "canvasEventMap (wake w st i) ev \<noteq> None \<and> ev \<notin> set (preloadBuffer (wake w st i))"
proof (cases "i < length (tasks st)")
  case False
  with assms show ?thesis by (simp add: wake_def)
next
  case True
  show ?thesis
  proof (cases "tasks st ! i")
    case (Decoding e rest)
    obtain st1 eo where
      f: "deserializeAndPreloadCanvasEvents_finish w st (mutation (heap w e)) e = (st1, eo)"
      by fastforce
    from finish_frame [OF f] True Decoding assms f show ?thesis
      by (cases eo) (auto simp: wake_def)
  next
    case (Settled e rest)
    from wake_settled [OF True Settled assms(1)] assms(2) show ?thesis by blast
  next
    case (Failed e)
    with True assms show ?thesis by (simp add: wake_def)
  next
    case (Applying e cid cs)
    show ?thesis
    proof (cases cs)
      case Nil
      with True Applying assms publish_frame [of st cid] show ?thesis
        by (simp add: wake_def)
    next
      case (Cons c cs')
      with True Applying assms draw_frame [of w st cid c] show ?thesis
        by (simp add: wake_def)
    qed
  next
    case (Thrown err)
    with True assms show ?thesis by (simp add: wake_def)
  next
    case Finished
    with True assms show ?thesis by (simp add: wake_def)
  qed
qed

lemma resolved_out_run:
  "canvasEventMap st ev \<noteq> None \<Longrightarrow> ev \<notin> set (preloadBuffer st) \<Longrightarrow>
   canvasEventMap (run w st acts) ev \<noteq> None \<and> ev \<notin> set (preloadBuffer (run w st acts))"
  unfolding run_def
proof (induction acts arbitrary: st)
  case Nil
  then show ?case by simp
next
  case (Cons a acts)
  have "canvasEventMap (step w st a) ev \<noteq> None \<and> ev \<notin> set (preloadBuffer (step w st a))"
    using Cons.prems
    by (cases a)
      (simp_all add: resolved_out_preload resolved_out_handler resolved_out_wake onBuild_frame)
  with Cons.IH [of "step w st a"] show ?case by simp
qed

text \<open>
  C9, as the code has it. When the resolution of an event has completed and has stored an
  entry in \<open>canvasEventMap\<close>, the \<open>preload\<close> call that awaited it deletes the event from the
  preload buffer as it resumes, and no later call of \<open>preload\<close>, no delivery to the handler
  and no continuation of a suspended call adds it to the buffer again.
\<close>

theorem resolved_event_stays_out:
  assumes "i < length (tasks st)" and "tasks st ! i = Settled ev rest"
    and "canvasEventMap st ev \<noteq> None"
  shows "ev \<notin> set (preloadBuffer (run w (wake w st i) acts))"
proof -
  from wake_settled [OF assms, of w]
  have "canvasEventMap (wake w st i) ev \<noteq> None \<and> ev \<notin> set (preloadBuffer (wake w st i))"
    by simp
  then show ?thesis using resolved_out_run by blast
qed

theorem resolved_event_stays_out_witness:
  "0 < length (tasks (run referenceRecording (CanvasReplayerPlugin referenceRecording) [Wake 0])) \<and>
   tasks (run referenceRecording (CanvasReplayerPlugin referenceRecording) [Wake 0]) ! 0 =
     Settled 2 [3] \<and>
   canvasEventMap (run referenceRecording (CanvasReplayerPlugin referenceRecording) [Wake 0]) 2
     \<noteq> None \<and>
   2 \<notin> set (preloadBuffer
     (run referenceRecording
        (wake referenceRecording
           (run referenceRecording (CanvasReplayerPlugin referenceRecording) [Wake 0]) 0)
        [Preload None, Handler 2 True emptyMirror, Preload (Some 2),
         OnBuild (Some \<lparr>nodeName = ''CANVAS'', nodeType = 1\<rparr>) 7, Wake 0, Wake 1]))"
proof -
  let ?S = "run referenceRecording (CanvasReplayerPlugin referenceRecording) [Wake 0]"
  have a: "0 < length (tasks ?S)" by code_simp
  have b: "tasks ?S ! 0 = Settled 2 [3]" by code_simp
  have c: "canvasEventMap ?S 2 \<noteq> None" by code_simp
  from resolved_event_stays_out [OF a b c] a b c show ?thesis by blast
qed

text \<open>
  C9 as stated fails for an event that needed no decoding. Event 1 has primitive
  arguments only: its resolution completes, \<open>preload\<close> resumes and deletes it from the
  buffer, and nothing records that it has been resolved. The next call of \<open>preload\<close> starts
  at index 1 and adds event 1 to the buffer again.
\<close>

theorem unchanged_event_enters_window_again:
  "tasks (run primitiveRecording (CanvasReplayerPlugin primitiveRecording)
            [Wake 0, Wake 0, Wake 0]) = [Settled 1 []] \<and>
   preloadBuffer (run primitiveRecording (CanvasReplayerPlugin primitiveRecording)
            [Wake 0, Wake 0, Wake 0, Wake 0]) = [] \<and>
   preloadBuffer (run primitiveRecording (CanvasReplayerPlugin primitiveRecording)
            [Wake 0, Wake 0, Wake 0, Wake 0, Preload None]) = [1]"
  by code_simp

subsection \<open>Resolving an event once\<close>












text \<open>
  The handle cache at work: two events that reference the same payload are both resolved,
  and the payload is decoded once.
\<close>

lemma shared_payload_decoded_once:
  "decoded (run sharedRecording (CanvasReplayerPlugin sharedRecording)
              [Wake 0, Wake 0, Wake 0, Wake 0]) = [5] \<and>
   canvasEventMap (run sharedRecording (CanvasReplayerPlugin sharedRecording)
              [Wake 0, Wake 0, Wake 0, Wake 0]) 0 \<noteq> None \<and>
   canvasEventMap (run sharedRecording (CanvasReplayerPlugin sharedRecording)
              [Wake 0, Wake 0, Wake 0, Wake 0]) 1 \<noteq> None"
  by code_simp

text \<open>
  An apply that is handed a mutation without references requests no decode.
\<close>

lemma draw_no_references:
  "arg_references (args c) = [] \<Longrightarrow>
   decoded (draw w st cid c) = decoded st \<and> imageMap (draw w st cid c) = imageMap st"
  by (simp add: draw_def Let_def uncached_def errorHandler_def
      split: option.splits thrown.splits)




subsection \<open>Applying a mutation\<close>

lemma draw_width_height:
  "canvases st cid = Some t \<Longrightarrow>
   \<exists>t'. canvases (draw w st cid c) cid = Some t' \<and> width t' = width t \<and> height t' = height t"
  by (simp add: draw_def Let_def errorHandler_def split: option.splits thrown.splits)

lemma draw_other:
  "c \<noteq> cid \<Longrightarrow> canvases (draw w st cid cmd) c = canvases st c"
  by (simp add: draw_def Let_def errorHandler_def split: option.splits thrown.splits)

lemma foldl_draw_width_height:
  "canvases st cid = Some t \<Longrightarrow>
   \<exists>t'. canvases (foldl (\<lambda>s c. draw w s cid c) st cs) cid = Some t' \<and>
        width t' = width t \<and> height t' = height t"
proof (induction cs arbitrary: st t)
  case Nil
  then show ?case by simp
next
  case (Cons c cs)
  from draw_width_height [OF Cons.prems, of w c]
  obtain t1 where t1: "canvases (draw w st cid c) cid = Some t1"
    "width t1 = width t" "height t1 = height t" by blast
  from Cons.IH [OF t1(1)] t1(2,3) show ?case by simp
qed

lemma canvases_publish: "canvases (publish st cid) = canvases st"
  by (simp add: publish_def split: option.splits)

lemma processMutation_start_source:
  assumes "mirror (data_id (mutation (heap w e))) = Some node"
  shows "\<exists>st1 t cs. processMutation_start w mirror st e =
           Inr (st1, Applying e (data_id (mutation (heap w e))) cs) \<and>
         canvases st1 (data_id (mutation (heap w e))) = Some t \<and>
         width t = clientWidth node \<and> height t = clientHeight node"
  using assms
  by (cases "canvases st (data_id (mutation (heap w e)))")
    (simp_all add: processMutation_start_def cloneCanvas_def Let_def)

lemma processMutation_start_other:
  "processMutation_start w mirror st e = Inr (st2, t) \<Longrightarrow>
   c \<noteq> data_id (mutation (heap w e)) \<Longrightarrow> canvases st2 c = canvases st c"
  by (auto simp: processMutation_start_def cloneCanvas_def Let_def split: option.splits)

text \<open>
  A \<open>processMutation\<close> call that nothing interleaves with leaves its target with the
  dimensions it read from the source node.
\<close>

lemma processMutation_resizes_target:
  assumes "mirror (data_id (mutation (heap w e))) = Some node"
  shows "\<exists>st' t. processMutation w mirror st e = Inr st' \<and>
           canvases st' (data_id (mutation (heap w e))) = Some t \<and>
           width t = clientWidth node \<and> height t = clientHeight node"
proof -
  let ?cid = "data_id (mutation (heap w e))"
  from processMutation_start_source [where mirror = mirror and w = w and e = e and st = st, OF assms]
  obtain st1 t cs where s: "processMutation_start w mirror st e = Inr (st1, Applying e ?cid cs)"
    and t: "canvases st1 ?cid = Some t" "width t = clientWidth node" "height t = clientHeight node"
    by blast
  from foldl_draw_width_height [OF t(1), of w cs]
  obtain t' where t': "canvases (foldl (\<lambda>s c. draw w s ?cid c) st1 cs) ?cid = Some t'"
    "width t' = width t" "height t' = height t" by blast
  have "processMutation w mirror st e = Inr (publish (foldl (\<lambda>s c. draw w s ?cid c) st1 cs) ?cid)"
    by (simp add: processMutation_def s)
  with t' t(2,3) show ?thesis by (simp add: canvases_publish)
qed

text \<open>
  The resize is done before \<open>processMutation\<close> first suspends: already when the handler
  returns, the target has the dimensions that this delivery read from the source node.
\<close>

lemma handler_sync_resizes_target:
  assumes "isCanvasMutation (heap w e)"
    and "mirror (data_id (mutation (heap w e))) = Some node"
  shows "\<exists>t. canvases (handler w mirror st e True) (data_id (mutation (heap w e))) = Some t \<and>
             width t = clientWidth node \<and> height t = clientHeight node"
proof -
  from processMutation_start_source
    [where mirror = mirror and w = w and e = e and st = "st\<lparr>nextPreloadIndex := None\<rparr>",
      OF assms(2)]
  obtain st1 t cs where
    "processMutation_start w mirror (st\<lparr>nextPreloadIndex := None\<rparr>) e =
       Inr (st1, Applying e (data_id (mutation (heap w e))) cs)"
    "canvases st1 (data_id (mutation (heap w e))) = Some t"
    "width t = clientWidth node" "height t = clientHeight node"
    by blast
  with assms(1) show ?thesis by (simp add: handler_def)
qed

lemma canvases_preload: "canvases (preload w st cur) = canvases st"
proof -
  let ?st1 = "st\<lparr>nextPreloadIndex := Some (currentIndex w st cur + 1)\<rparr>"
  obtain st2 t where l: "preload_loop w ?st1 (eventsToPreload w st cur) = (st2, t)"
    by fastforce
  from preload_loop_cases [OF l] l show ?thesis by (auto simp: preload_def)
qed

lemma canvases_onBuild: "canvases (onBuild st node i) = canvases st"
  by (simp add: onBuild_def Let_def split: option.splits)

lemma dimensions_wake:
  assumes "canvases st cid = Some t"
  shows "\<exists>t'. canvases (wake w st i) cid = Some t' \<and> width t' = width t \<and> height t' = height t"
proof (cases "i < length (tasks st)")
  case False
  with assms show ?thesis by (simp add: wake_def)
next
  case True
  show ?thesis
  proof (cases "tasks st ! i")
    case (Decoding e rest)
    obtain st1 eo where
      f: "deserializeAndPreloadCanvasEvents_finish w st (mutation (heap w e)) e = (st1, eo)"
      by fastforce
    from finish_frame [OF f] True Decoding assms f show ?thesis
      by (cases eo) (simp_all add: wake_def)
  next
    case (Settled e rest)
    let ?st1 = "st\<lparr>preloadBuffer := Set_delete e (preloadBuffer st)\<rparr>"
    obtain st2 u where l: "preload_loop w ?st1 rest = (st2, u)" by fastforce
    from preload_loop_cases [OF l] l True Settled assms show ?thesis
      by (auto simp: wake_def)
  next
    case (Failed e)
    with True assms show ?thesis by (simp add: wake_def)
  next
    case (Applying e cid' cs)
    show ?thesis
    proof (cases cs)
      case Nil
      with True Applying assms show ?thesis
        by (simp add: wake_def canvases_publish)
    next
      case (Cons c cs')
      show ?thesis
      proof (cases "cid' = cid")
        case True
        from draw_width_height [OF assms, of w c] \<open>i < length (tasks st)\<close> Applying Cons True
        show ?thesis by (simp add: wake_def)
      next
        case False
        then have "canvases (draw w st cid' c) cid = canvases st cid"
          by (simp add: draw_other)
        with \<open>i < length (tasks st)\<close> Applying Cons assms show ?thesis
          by (simp add: wake_def)
      qed
    qed
  next
    case (Thrown err)
    with True assms show ?thesis by (simp add: wake_def)
  next
    case Finished
    with True assms show ?thesis by (simp add: wake_def)
  qed
qed

lemma dimensions_step:
  assumes "canvases st cid = Some t" and "\<not> starts_apply w cid a"
  shows "\<exists>t'. canvases (step w st a) cid = Some t' \<and> width t' = width t \<and> height t' = height t"
proof (cases a)
  case (Preload cur)
  with assms show ?thesis by (simp add: canvases_preload)
next
  case (Handler e isSync mirror)
  show ?thesis
  proof (cases "isSync \<and> isCanvasMutation (heap w e)")
    case False
    with assms Handler show ?thesis by (auto simp: handler_def Let_def)
  next
    case True
    with assms(2) Handler have ne: "cid \<noteq> data_id (mutation (heap w e))" by auto
    show ?thesis
    proof (cases "processMutation_start w mirror (st\<lparr>nextPreloadIndex := None\<rparr>) e")
      case (Inl err)
      with True assms Handler show ?thesis by (simp add: handler_def)
    next
      case (Inr r)
      obtain st2 u where r: "r = (st2, u)" by fastforce
      from processMutation_start_other [OF Inr [unfolded r] ne] True assms Handler Inr r
      show ?thesis by (simp add: handler_def)
    qed
  qed
next
  case (OnBuild node i)
  with assms show ?thesis by (simp add: canvases_onBuild)
next
  case (Wake i)
  with dimensions_wake [OF assms(1)] show ?thesis by simp
qed

lemma dimensions_run:
  "canvases st cid = Some t \<Longrightarrow> \<forall>a \<in> set acts. \<not> starts_apply w cid a \<Longrightarrow>
   \<exists>t'. canvases (run w st acts) cid = Some t' \<and> width t' = width t \<and> height t' = height t"
  unfolding run_def
proof (induction acts arbitrary: st t)
  case Nil
  then show ?case by simp
next
  case (Cons a acts)
  from Cons.prems have "\<not> starts_apply w cid a" by simp
  from dimensions_step [OF Cons.prems(1) this]
  obtain t1 where t1: "canvases (step w st a) cid = Some t1"
    "width t1 = width t" "height t1 = height t" by blast
  from Cons.prems have "\<forall>a \<in> set acts. \<not> starts_apply w cid a" by simp
  from Cons.IH [OF t1(1) this] t1(2,3) show ?case by simp
qed

text \<open>
  C8, as the code has it. An apply whose canvas has a source node in the mirror reaches its
  target and gives it the \<open>clientWidth\<close> and \<open>clientHeight\<close> that it read from the source
  node, and the target keeps these dimensions, through every continuation of every
  suspended call and so also when this apply completes, for as long as no later apply of
  the same canvas is started. Two mutations of one canvas that are applied one after the
  other, with different source dimensions, each leave the target with the dimensions that
  apply read.
\<close>

theorem target_keeps_dimensions_of_latest_apply:
  assumes "isCanvasMutation (heap w e)"
    and "mirror (data_id (mutation (heap w e))) = Some node"
    and "\<forall>a \<in> set acts. \<not> starts_apply w (data_id (mutation (heap w e))) a"
  shows "\<exists>t. canvases (run w (handler w mirror st e True) acts)
                (data_id (mutation (heap w e))) = Some t \<and>
             width t = clientWidth node \<and> height t = clientHeight node"
proof -
  from handler_sync_resizes_target
    [where w = w and e = e and mirror = mirror and st = st, OF assms(1,2)]
  obtain t where t: "canvases (handler w mirror st e True) (data_id (mutation (heap w e))) = Some t"
    "width t = clientWidth node" "height t = clientHeight node" by blast
  from dimensions_run [OF t(1) assms(3)] t(2,3) show ?thesis by simp
qed

theorem target_keeps_dimensions_of_latest_apply_witness:
  "isCanvasMutation (heap primitiveRecording 1) \<and>
   mirror7 800 600 (data_id (mutation (heap primitiveRecording 1))) = Some (canvasNode 800 600) \<and>
   tasks (run primitiveRecording
            (handler primitiveRecording (mirror7 800 600)
               (handler primitiveRecording (mirror7 640 480)
                  (CanvasReplayerPlugin primitiveRecording) 0 True) 1 True)
            [Wake 2, Preload None, Wake 0, Wake 2, OnBuild None 7, Handler 0 False emptyMirror]) ! 2
     = Finished \<and>
   (\<exists>t. canvases
          (run primitiveRecording
             (handler primitiveRecording (mirror7 800 600)
                (handler primitiveRecording (mirror7 640 480)
                   (CanvasReplayerPlugin primitiveRecording) 0 True) 1 True)
             [Wake 2, Preload None, Wake 0, Wake 2, OnBuild None 7, Handler 0 False emptyMirror])
          7 = Some t \<and>
        width t = 800 \<and> height t = 600)"
proof -
  let ?acts = "[Wake 2, Preload None, Wake 0, Wake 2, OnBuild None 7, Handler 0 False emptyMirror]"
  let ?st = "handler primitiveRecording (mirror7 640 480)
              (CanvasReplayerPlugin primitiveRecording) 0 True"
  have id1: "data_id (mutation (heap primitiveRecording 1)) = 7"
    by code_simp
  have a: "isCanvasMutation (heap primitiveRecording 1)"
    by code_simp
  have b: "mirror7 800 600 (data_id (mutation (heap primitiveRecording 1))) =
      Some (canvasNode 800 600)"
    unfolding id1 by (simp add: mirror7_def)
  have c: "\<forall>a \<in> set ?acts.
      \<not> starts_apply primitiveRecording (data_id (mutation (heap primitiveRecording 1))) a"
    by simp
  have d: "tasks (run primitiveRecording
      (handler primitiveRecording (mirror7 800 600) ?st 1 True) ?acts) ! 2 = Finished"
    by code_simp
  from target_keeps_dimensions_of_latest_apply
    [where w = primitiveRecording and e = 1 and mirror = "mirror7 800 600" and st = ?st
      and acts = ?acts, OF a b c]
  obtain t where "canvases (run primitiveRecording
      (handler primitiveRecording (mirror7 800 600) ?st 1 True) ?acts) 7 = Some t"
    "width t = 800" "height t = 600"
    unfolding id1 by (auto simp: canvasNode_def)
  with a b d show ?thesis by blast
qed

text \<open>
  C8 as stated fails for applies that overlap. The apply of event 0 reads 640 by 480 from
  the source node; before it has completed, event 1 of the same canvas is delivered and its
  apply reads 800 by 600. When the apply of event 0 completes, the target is 800 by 600.
\<close>

theorem earlier_apply_completes_with_later_dimensions:
  "map_option width
     (canvases (run primitiveRecording (CanvasReplayerPlugin primitiveRecording)
        [Handler 0 True (mirror7 640 480)]) 7) = Some 640 \<and>
   tasks (run primitiveRecording (CanvasReplayerPlugin primitiveRecording)
        [Handler 0 True (mirror7 640 480), Handler 1 True (mirror7 800 600)]) =
     [Decoding 0 [1], Applying 0 7 [fillRect, fillRect], Applying 1 7 [clearRect]] \<and>
   tasks (run primitiveRecording (CanvasReplayerPlugin primitiveRecording)
        [Handler 0 True (mirror7 640 480), Handler 1 True (mirror7 800 600),
         Wake 1, Wake 1, Wake 1]) =
     [Decoding 0 [1], Finished, Applying 1 7 [clearRect]] \<and>
   map_option width
     (canvases (run primitiveRecording (CanvasReplayerPlugin primitiveRecording)
        [Handler 0 True (mirror7 640 480), Handler 1 True (mirror7 800 600),
         Wake 1, Wake 1, Wake 1]) 7) = Some 800 \<and>
   map_option height
     (canvases (run primitiveRecording (CanvasReplayerPlugin primitiveRecording)
        [Handler 0 True (mirror7 640 480), Handler 1 True (mirror7 800 600),
         Wake 1, Wake 1, Wake 1]) 7) = Some 600"
  by code_simp

lemma processMutation_missing_node_no_target:
  assumes "mirror (data_id (mutation (heap w e))) = None"
    and "canvases st (data_id (mutation (heap w e))) = None"
  shows "processMutation w mirror st e = Inr st"
  using assms by (simp add: processMutation_def processMutation_start_def)

lemma processMutation_missing_node_with_target:
  assumes "mirror (data_id (mutation (heap w e))) = None"
    and "canvases st (data_id (mutation (heap w e))) = Some t"
  shows "processMutation w mirror st e = Inl TypeError"
  using assms by (simp add: processMutation_def processMutation_start_def)

text \<open>
  C7, on the code. Canvas 7 got its target while its node was in the mirror; the node has
  since left the mirror. Applying the next mutation of canvas 7 finds the target in
  \<open>canvases\<close>, so it does not return at \<open>if (!target)\<close>, and then reads \<open>clientWidth\<close> of the
  missing source: the call ends with a \<open>TypeError\<close>.
\<close>

theorem processMutation_missing_node_throws:
  "(case processMutation primitiveRecording (mirror7 640 480) init 0 of
      Inl err \<Rightarrow> False
    | Inr s1 \<Rightarrow>
        canvases s1 7 \<noteq> None \<and>
        emptyMirror (data_id (mutation (heap primitiveRecording 1))) = None \<and>
        (case processMutation primitiveRecording emptyMirror s1 1 of
           Inl err \<Rightarrow> err = TypeError
         | Inr s2 \<Rightarrow> False))"
  by code_simp

subsection \<open>The order of the draw calls on a target\<close>







end
